theory Spec2Isabelle
  imports Complex_Main "HOL-Library.Signed_Division"
begin

section \<open>Numeric model\<close>

text \<open>
  The module computes in C \<open>gdouble\<close> and \<open>gint\<close>. Except in the section on binary64
  below, a \<open>gdouble\<close> is a real number here and \<open>tan\<close>, \<open>sqrt\<close>, \<open>acos\<close>, \<open>floor\<close> are
  the mathematical functions, so the statements are about the exact arithmetic the
  code denotes, not about rounding, infinities or NaN. A \<open>gint\<close> is an integer: the new
  resolution, which a steep skew angle can push beyond 32 bits, is the 32-bit value
  that \<open>GWY_ROUND\<close> returns, and the index expressions of the resampler stay inside 32
  bits for every resolution below about \<open>2^30\<close> divided by the support size (lemma
  \<open>mirror_index_fits_gint\<close>). The integer operators \<open>/\<close> and \<open>%\<close> of C truncate towards
  zero and are \<open>sdiv\<close> and \<open>smod\<close>.
\<close>

definition PI :: real where
  \<comment> \<open>\<^verbatim>\<open>#define PI 3.14159265358979323846\<close>\<close>
  "PI = 3.14159265358979323846"

definition deg2rad :: "real \<Rightarrow> real" where
  "deg2rad deg = deg * PI / 180.0"

definition GWY_ROUND :: "real \<Rightarrow> int" where
  \<comment> \<open>Modelled from the spec: the macro \<open>GWY_ROUND\<close> comes from a header of the host
      library, which is not part of the repository; the spec has it as "round"
      (\<open>round(bbox width)\<close>): the nearest integer, halves upwards, converted to the
      32-bit \<open>gint\<close>. A value that does not fit 32 bits becomes \<open>INT_MIN\<close>: C leaves
      that conversion undefined, and this is what the conversion instruction of
      x86-64 yields and the program stores.\<close>
  "GWY_ROUND x =
     (let r = \<lfloor>x + 0.5\<rfloor>
      in if - 2147483648 \<le> r \<and> r < 2147483648 then r else - 2147483648)"

section \<open>Matrix2x3: determinant, inverse, point transform\<close>

text \<open>A transform is the array \<open>gdouble[6]\<close>, a point the array \<open>gdouble[3]\<close>.\<close>

definition matrix_det :: "real list \<Rightarrow> real" where
  "matrix_det m = m ! 0 * m ! 3 - m ! 1 * m ! 2"

definition invert_matrix :: "real list \<Rightarrow> real list" where
  "invert_matrix src =
     (let D = matrix_det src in
      [src ! 3 / D,
       - src ! 1 / D,
       - src ! 2 / D,
       src ! 0 / D,
       (src ! 2 * src ! 5 - src ! 3 * src ! 4) / D,
       (src ! 1 * src ! 4 - src ! 0 * src ! 5) / D])"

definition mult_3matrix :: "real list \<Rightarrow> real list \<Rightarrow> real list" where
  "mult_3matrix mat1 mat2 =
     [mat1 ! 0 * mat2 ! 0 + mat1 ! 2 * mat2 ! 1 + mat1 ! 4 * mat2 ! 2,
      mat1 ! 1 * mat2 ! 0 + mat1 ! 3 * mat2 ! 1 + mat1 ! 5 * mat2 ! 2,
      mat2 ! 2]"

section \<open>SkewModel: the shear matrix and the new canvas\<close>

text \<open>
  \<open>skew_process\<close> reads the resolution of the image and its minimum and maximum, and the
  two skew angles of the arguments; it leaves the new resolution (the fields
  \<open>gint newxres, newyres\<close>, which hold what \<open>GWY_ROUND\<close> returns), the fill value, the
  forward matrix \<open>Trans\<close> and its inverse \<open>iTrans\<close>, which it hands to \<open>affine\<close>.
\<close>

definition shear_Trans :: "real \<Rightarrow> real \<Rightarrow> real list" where
  \<comment> \<open>\<open>Trans\<close> as first filled in: translation zero\<close>
  "shear_Trans Xskew Yskew =
     (let hAngle = deg2rad Xskew;
          vAngle = deg2rad Yskew
      in [1, tan vAngle, tan hAngle, 1, 0, 0])"

definition cornX :: "real \<Rightarrow> real list" where
  "cornX oxres = [0, oxres, oxres, 0]"

definition cornY :: "real \<Rightarrow> real list" where
  "cornY oyres = [0, 0, oyres, oyres]"

definition Tcorn :: "real list \<Rightarrow> real \<Rightarrow> real \<Rightarrow> nat \<Rightarrow> real list" where
  \<comment> \<open>the body of the first loop: \<open>Tp\<close> for corner \<open>i\<close>\<close>
  "Tcorn Trans oxres oyres i = mult_3matrix Trans [cornX oxres ! i, cornY oyres ! i, 1]"

definition TcornX :: "real list \<Rightarrow> real \<Rightarrow> real \<Rightarrow> real list" where
  "TcornX Trans oxres oyres = map (\<lambda>i. Tcorn Trans oxres oyres i ! 0) [0..<4]"

definition TcornY :: "real list \<Rightarrow> real \<Rightarrow> real \<Rightarrow> real list" where
  "TcornY Trans oxres oyres = map (\<lambda>i. Tcorn Trans oxres oyres i ! 1) [0..<4]"

record bbox =
  lowX :: real
  highX :: real
  lowY :: real
  highY :: real

definition bbox_step :: "real list \<Rightarrow> real list \<Rightarrow> nat \<Rightarrow> bbox \<Rightarrow> bbox" where
  \<comment> \<open>the body of the second loop: four independent \<open>if\<close>s\<close>
  "bbox_step tx ty i b =
     (let b1 = (if tx ! i < lowX b then b\<lparr>lowX := tx ! i\<rparr> else b);
          b2 = (if tx ! i > highX b1 then b1\<lparr>highX := tx ! i\<rparr> else b1);
          b3 = (if ty ! i < lowY b2 then b2\<lparr>lowY := ty ! i\<rparr> else b2);
          b4 = (if ty ! i > highY b3 then b3\<lparr>highY := ty ! i\<rparr> else b3)
      in b4)"

definition bbox_of :: "real list \<Rightarrow> real list \<Rightarrow> bbox" where
  "bbox_of tx ty =
     fold (bbox_step tx ty) [1..<4]
       \<lparr>lowX = tx ! 0, highX = tx ! 0, lowY = ty ! 0, highY = ty ! 0\<rparr>"

record skew_result =
  newxres :: int
  newyres :: int
  background_fill :: real
  Trans :: "real list"
  iTrans :: "real list"

definition skew_process :: "int \<Rightarrow> int \<Rightarrow> real \<Rightarrow> real \<Rightarrow> real \<Rightarrow> real \<Rightarrow> skew_result" where
  "skew_process image_xres image_yres image_min image_max Xskew Yskew =
     (let oxres = real_of_int image_xres;
          oyres = real_of_int image_yres;
          hAngle = deg2rad Xskew;
          vAngle = deg2rad Yskew;
          T0 = shear_Trans Xskew Yskew;
          b = bbox_of (TcornX T0 oxres oyres) (TcornY T0 oxres oyres);
          xres = GWY_ROUND (highX b - lowX b);
          yres = GWY_ROUND (highY b - lowY b);
          T = [1, tan vAngle, tan hAngle, 1, - lowX b, - lowY b]
      in \<lparr>newxres = xres, newyres = yres,
          background_fill = image_min - 0.05 * (image_max - image_min),
          Trans = T, iTrans = invert_matrix T\<rparr>)"

section \<open>Data fields and interpolation kernels\<close>

text \<open>
  A \<open>GwyDataField\<close> is a grid of samples stored row by row; \<open>affine\<close> indexes the array
  directly (\<open>cdata[ii*xres + jj]\<close>, \<open>data[newi + newxres*newj]\<close>).
\<close>

record data_field =
  get_xres :: int
  get_yres :: int
  get_data :: "real list"


text \<open>
  The interpolation kernels belong to the host library too. \<open>affine\<close> uses four things
  of a kernel, which are the fields of this record: its support size, whether its basis
  is interpolating, the pass that resolves coefficients, and the interpolation of a
  gathered neighbourhood at fractional offsets.
\<close>

record interpolation =
  get_support_size :: int
  has_interpolating_basis :: bool
  resolve_coeffs_2d :: "int \<Rightarrow> int \<Rightarrow> real list \<Rightarrow> real list"
  interpolate_2d :: "real \<Rightarrow> real \<Rightarrow> real list \<Rightarrow> real"

section \<open>AffineResampler: \<open>affine\<close>\<close>

text \<open>The translation after the two \<open>+=\<close> that precede the loop.\<close>

definition affine_bx :: "real list \<Rightarrow> real" where
  "affine_bx invtrans =
     (let axx = invtrans ! 0; axy = invtrans ! 1; bx = invtrans ! 4
      in bx + 0.5 * (axx + axy - 1.0))"

definition affine_by :: "real list \<Rightarrow> real" where
  "affine_by invtrans =
     (let ayx = invtrans ! 2; ayy = invtrans ! 3; by = invtrans ! 5
      in by + 0.5 * (ayx + ayy - 1.0))"

text \<open>The source coordinate of the destination pixel \<open>(newi, newj)\<close>.\<close>

definition affine_x :: "real list \<Rightarrow> int \<Rightarrow> int \<Rightarrow> real" where
  "affine_x invtrans newi newj =
     (let axx = invtrans ! 0; ayx = invtrans ! 2; bx = affine_bx invtrans
      in axx * real_of_int newi + ayx * real_of_int newj + bx)"

definition affine_y :: "real list \<Rightarrow> int \<Rightarrow> int \<Rightarrow> real" where
  "affine_y invtrans newi newj =
     (let axy = invtrans ! 1; ayy = invtrans ! 3; by = affine_by invtrans
      in axy * real_of_int newi + ayy * real_of_int newj + by)"

definition vset :: "real \<Rightarrow> real \<Rightarrow> int \<Rightarrow> int \<Rightarrow> bool" where
  "vset x y xres yres \<longleftrightarrow>
     y > real_of_int yres \<or> x > real_of_int xres \<or> y < 0.0 \<or> x < 0.0"

text \<open>
  The index arithmetic of the gathering loops: \<open>ii\<close> from \<open>oldi\<close> and the offset \<open>i\<close>
  along an axis of resolution \<open>res\<close>, and the position read in \<open>cdata\<close>.
\<close>

definition mirror_index :: "int \<Rightarrow> int \<Rightarrow> int \<Rightarrow> int \<Rightarrow> int" where
  "mirror_index old i st res =
     (let ii = (old + i + 2 * st * res) smod (2 * res)
      in if ii \<ge> res then 2 * res - 1 - ii else ii)"

definition cdata_index :: "int \<Rightarrow> int \<Rightarrow> int \<Rightarrow> int \<Rightarrow> int \<Rightarrow> int \<Rightarrow> int \<Rightarrow> int" where
  "cdata_index xres yres oldi oldj st i j =
     mirror_index oldi i st yres * xres + mirror_index oldj j st xres"

text \<open>
  The array \<open>coeff\<close> after the two gathering loops: entry \<open>(i - sf)*suplen + j - sf\<close> is
  written at the iteration \<open>(i, j)\<close>, so the array is the list of the reads in loop order.
\<close>

definition gather :: "real list \<Rightarrow> int \<Rightarrow> int \<Rightarrow> int \<Rightarrow> int \<Rightarrow> int \<Rightarrow> real list" where
  "gather cdata xres yres oldi oldj suplen =
     (let sf = - ((suplen - 1) sdiv 2);
          st = suplen sdiv 2
      in concat (map (\<lambda>i. map (\<lambda>j. cdata ! nat (cdata_index xres yres oldi oldj st i j))
                              [sf..st])
                     [sf..st]))"

definition affine_pixel ::
  "int \<Rightarrow> int \<Rightarrow> real list \<Rightarrow> real list \<Rightarrow> interpolation \<Rightarrow> real \<Rightarrow> int \<Rightarrow> int \<Rightarrow> real" where
  "affine_pixel xres yres cdata invtrans interp fill_value newi newj =
     (let suplen = get_support_size interp;
          x = affine_x invtrans newi newj;
          y = affine_y invtrans newi newj
      in if vset x y xres yres then fill_value
         else (let oldi = \<lfloor>y\<rfloor>;
                   y' = y - real_of_int oldi;
                   oldj = \<lfloor>x\<rfloor>;
                   x' = x - real_of_int oldj
               in interpolate_2d interp x' y' (gather cdata xres yres oldi oldj suplen)))"

text \<open>
  \<open>affine\<close> returns without writing when the support size is not positive; otherwise
  the two loops store one value for each pixel of \<open>dest\<close>.
\<close>

definition affine ::
  "data_field \<Rightarrow> data_field \<Rightarrow> real list \<Rightarrow> interpolation \<Rightarrow> real \<Rightarrow> data_field" where
  "affine source dest invtrans interp fill_value =
     (let suplen = get_support_size interp
      in if \<not> suplen > 0 then dest
         else (let xres = get_xres source;
                   yres = get_yres source;
                   newxres = get_xres dest;
                   newyres = get_yres dest;
                   cdata = (if has_interpolating_basis interp then get_data source
                            else resolve_coeffs_2d interp xres yres (get_data source));
                   data = fold (\<lambda>newi. fold (\<lambda>newj d.
                                  d[nat (newi + newxres * newj) :=
                                      affine_pixel xres yres cdata invtrans interp fill_value newi newj])
                                [0..newyres - 1])
                            [0..newxres - 1] (get_data dest)
               in dest\<lparr>get_data := data\<rparr>))"

section \<open>PeakLocator: \<open>peak_find\<close>\<close>







section \<open>AngleMeasurer: \<open>get_angles\<close>\<close>

text \<open>
  The four peaks are the rows of \<open>controls->p\<close>. The length \<open>b\<close> is computed once: the
  second angle divides by the \<open>b\<close> of the first, which is the length of the same segment
  \<open>p2 p3\<close>.
\<close>

definition get_angles :: "real list list \<Rightarrow> real \<times> real" where
  "get_angles p =
     (let x1 = p ! 0 ! 0; y1 = p ! 0 ! 1;
          x2 = p ! 1 ! 0; y2 = p ! 1 ! 1;
          x3 = p ! 2 ! 0; y3 = p ! 2 ! 1;
          x4 = p ! 3 ! 0; y4 = p ! 3 ! 1;
          ax = x1 - x2; ay = y1 - y2;
          bx = x3 - x2; by = y3 - y2;
          a = sqrt (ax * ax + ay * ay);
          b = sqrt (bx * bx + by * by);
          ab = ax * bx + ay * by;
          angle1 = arccos (ab / (a * b)) * 180 / PI;
          ax = x4 - x3; ay = y4 - y3;
          bx = x2 - x3; by = y2 - y3;
          a = sqrt (ax * ax + ay * ay);
          ab = ax * bx + ay * by;
          angle2 = arccos (ab / (a * b)) * 180 / PI
      in (angle1, angle2))"

section \<open>Doubles: IEEE 754 binary64\<close>

text \<open>
  Whether an angle is exactly \<open>90.0\<close> depends on how the doubles round, so
  \<open>get_angles\<close> is also given over binary64. A finite double is a real \<open>m * 2^e\<close> with
  \<open>|m| < 2^53\<close> and \<open>e \<ge> -1074\<close>, and an operation returns the exact result rounded to
  the nearest double, ties to the even significand. \<open>sqrt\<close> is correctly rounded as
  IEEE 754 requires; \<open>acos\<close> is taken to return the double nearest to the exact value,
  as the C libraries in use do at 0. Overflow, signed zeros and NaN are left out.
\<close>

definition pow2 :: "int \<Rightarrow> real" where
  "pow2 e = (if 0 \<le> e then 2 ^ nat e else 1 / 2 ^ nat (- e))"

definition round_half_even :: "real \<Rightarrow> int" where
  "round_half_even y =
     (let f = \<lfloor>y\<rfloor>; d = y - real_of_int f
      in if d < 1 / 2 then f
         else if 1 / 2 < d then f + 1
         else if even f then f else f + 1)"

definition b64_round :: "real \<Rightarrow> real" where
  "b64_round x =
     (if x = 0 then 0
      else (let e = max (\<lfloor>log 2 \<bar>x\<bar>\<rfloor> - 52) (- 1074)
            in real_of_int (round_half_even (x / pow2 e)) * pow2 e))"

definition b64_add :: "real \<Rightarrow> real \<Rightarrow> real" where "b64_add a b = b64_round (a + b)"
definition b64_sub :: "real \<Rightarrow> real \<Rightarrow> real" where "b64_sub a b = b64_round (a - b)"
definition b64_mul :: "real \<Rightarrow> real \<Rightarrow> real" where "b64_mul a b = b64_round (a * b)"
definition b64_div :: "real \<Rightarrow> real \<Rightarrow> real" where "b64_div a b = b64_round (a / b)"
definition b64_sqrt :: "real \<Rightarrow> real" where "b64_sqrt a = b64_round (sqrt a)"
definition b64_acos :: "real \<Rightarrow> real" where "b64_acos a = b64_round (arccos a)"

text \<open>
  \<open>get_angles\<close> with every operation rounded; \<open>acos(\<dots>) * 180/PI\<close> is
  \<open>(acos(\<dots>) * 180) / PI\<close>, and the constant \<open>PI\<close> is the double nearest to the literal.
\<close>

definition get_angles_b64 :: "real list list \<Rightarrow> real \<times> real" where
  "get_angles_b64 p =
     (let x1 = p ! 0 ! 0; y1 = p ! 0 ! 1;
          x2 = p ! 1 ! 0; y2 = p ! 1 ! 1;
          x3 = p ! 2 ! 0; y3 = p ! 2 ! 1;
          x4 = p ! 3 ! 0; y4 = p ! 3 ! 1;
          ax = b64_sub x1 x2; ay = b64_sub y1 y2;
          bx = b64_sub x3 x2; by = b64_sub y3 y2;
          a = b64_sqrt (b64_add (b64_mul ax ax) (b64_mul ay ay));
          b = b64_sqrt (b64_add (b64_mul bx bx) (b64_mul by by));
          ab = b64_add (b64_mul ax bx) (b64_mul ay by);
          angle1 = b64_div (b64_mul (b64_acos (b64_div ab (b64_mul a b))) 180) (b64_round PI);
          ax = b64_sub x4 x3; ay = b64_sub y4 y3;
          bx = b64_sub x2 x3; by = b64_sub y2 y3;
          a = b64_sqrt (b64_add (b64_mul ax ax) (b64_mul ay ay));
          ab = b64_add (b64_mul ax bx) (b64_mul ay by);
          angle2 = b64_div (b64_mul (b64_acos (b64_div ab (b64_mul a b))) 180) (b64_round PI)
      in (angle1, angle2))"







section \<open>Example data\<close>

definition square_lattice :: "real list list" where
  "square_lattice = [[0, 1, 0], [0, 0, 0], [1, 0, 0], [1, 1, 0]]"

definition linear_kernel :: interpolation where
  \<comment> \<open>a bilinear kernel: support 2, interpolating basis\<close>
  "linear_kernel =
     \<lparr>get_support_size = 2, has_interpolating_basis = True,
      resolve_coeffs_2d = (\<lambda>xres yres d. d),
      interpolate_2d = (\<lambda>x y coeff.
         (1 - y) * ((1 - x) * coeff ! 0 + x * coeff ! 1)
         + y * ((1 - x) * coeff ! 2 + x * coeff ! 3))\<rparr>"

definition ex_source :: data_field where
  "ex_source = \<lparr>get_xres = 1, get_yres = 1, get_data = [7]\<rparr>"

definition ex_dest :: data_field where
  "ex_dest = \<lparr>get_xres = 2, get_yres = 1, get_data = [0, 0]\<rparr>"

definition identity_map :: "real list" where
  "identity_map = [1, 0, 0, 1, 0, 0]"



section \<open>Properties of the shear matrix and the canvas\<close>

subsection \<open>The bounding box of the sheared rectangle\<close>

lemma bbox_step_lowX: "lowX (bbox_step tx ty i b) = min (lowX b) (tx ! i)"
  by (simp add: bbox_step_def Let_def min_def)
lemma bbox_step_highX: "highX (bbox_step tx ty i b) = max (highX b) (tx ! i)"
  by (simp add: bbox_step_def Let_def max_def)
lemma bbox_step_lowY: "lowY (bbox_step tx ty i b) = min (lowY b) (ty ! i)"
  by (simp add: bbox_step_def Let_def min_def)
lemma bbox_step_highY: "highY (bbox_step tx ty i b) = max (highY b) (ty ! i)"
  by (simp add: bbox_step_def Let_def max_def)

lemma upt_1_4: "[Suc 0..<4] = [Suc 0, 2, 3]"
  by (simp add: upt_rec)

lemma upt_0_4: "[0..<4] = [0, 1, 2, 3::nat]"
  by (simp add: upt_rec)

lemma span4:
  fixes W s :: real
  assumes "0 \<le> W"
  shows "max (max (max 0 W) (W + s)) s - min (min (min 0 W) (W + s)) s = W + \<bar>s\<bar>"
  using assms by (auto simp: min_def max_def)

lemma span4':
  fixes W s :: real
  assumes "0 \<le> W"
  shows "max (max (max 0 s) (s + W)) W - min (min (min 0 s) (s + W)) W = W + \<bar>s\<bar>"
  using assms by (auto simp: min_def max_def)

lemma bbox_of_lowX: "lowX (bbox_of tx ty) = min (min (min (tx ! 0) (tx ! 1)) (tx ! 2)) (tx ! 3)"
  by (simp add: bbox_of_def upt_1_4 bbox_step_lowX)
lemma bbox_of_highX: "highX (bbox_of tx ty) = max (max (max (tx ! 0) (tx ! 1)) (tx ! 2)) (tx ! 3)"
  by (simp add: bbox_of_def upt_1_4 bbox_step_highX)
lemma bbox_of_lowY: "lowY (bbox_of tx ty) = min (min (min (ty ! 0) (ty ! 1)) (ty ! 2)) (ty ! 3)"
  by (simp add: bbox_of_def upt_1_4 bbox_step_lowY)
lemma bbox_of_highY: "highY (bbox_of tx ty) = max (max (max (ty ! 0) (ty ! 1)) (ty ! 2)) (ty ! 3)"
  by (simp add: bbox_of_def upt_1_4 bbox_step_highY)

lemma TcornX_shear:
  "TcornX (shear_Trans Xskew Yskew) W H =
     [0, W, W + tan (deg2rad Xskew) * H, tan (deg2rad Xskew) * H]"
  by (simp add: TcornX_def Tcorn_def upt_0_4 mult_3matrix_def shear_Trans_def cornX_def cornY_def Let_def)

lemma TcornY_shear:
  "TcornY (shear_Trans Xskew Yskew) W H =
     [0, tan (deg2rad Yskew) * W, tan (deg2rad Yskew) * W + H, H]"
  by (simp add: TcornY_def Tcorn_def upt_0_4 mult_3matrix_def shear_Trans_def cornX_def cornY_def Let_def)

lemma width_shear:
  assumes "0 \<le> W" "0 \<le> H"
  shows "highX (bbox_of (TcornX (shear_Trans Xskew Yskew) W H) ty)
         - lowX (bbox_of (TcornX (shear_Trans Xskew Yskew) W H) ty)
         = W + \<bar>tan (deg2rad Xskew)\<bar> * H"
proof -
  have "\<bar>tan (deg2rad Xskew) * H\<bar> = \<bar>tan (deg2rad Xskew)\<bar> * H"
    using assms by (simp add: abs_mult)
  then show ?thesis
    using span4 [OF assms(1), of "tan (deg2rad Xskew) * H"] assms
    by (simp add: bbox_of_lowX bbox_of_highX TcornX_shear)
qed

lemma height_shear:
  assumes "0 \<le> W" "0 \<le> H"
  shows "highY (bbox_of tx (TcornY (shear_Trans Xskew Yskew) W H))
         - lowY (bbox_of tx (TcornY (shear_Trans Xskew Yskew) W H))
         = H + \<bar>tan (deg2rad Yskew)\<bar> * W"
proof -
  have "\<bar>tan (deg2rad Yskew) * W\<bar> = \<bar>tan (deg2rad Yskew)\<bar> * W"
    using assms by (simp add: abs_mult)
  then show ?thesis
    using span4' [OF assms(2), of "tan (deg2rad Yskew) * W"] assms
    by (simp add: bbox_of_lowY bbox_of_highY TcornY_shear)
qed

lemma newxres_eq:
  assumes "0 \<le> W" "0 \<le> H"
  shows "newxres (skew_process W H mn mx Xskew Yskew)
         = GWY_ROUND (real_of_int W + \<bar>tan (deg2rad Xskew)\<bar> * real_of_int H)"
  using assms by (simp add: skew_process_def Let_def width_shear)

lemma newyres_eq:
  assumes "0 \<le> W" "0 \<le> H"
  shows "newyres (skew_process W H mn mx Xskew Yskew)
         = GWY_ROUND (real_of_int H + \<bar>tan (deg2rad Yskew)\<bar> * real_of_int W)"
  using assms by (simp add: skew_process_def Let_def height_shear)

lemma GWY_ROUND_in_range:
  assumes "0 \<le> x" and "x + 1 / 2 < 2147483648"
  shows "GWY_ROUND x = \<lfloor>x + 1 / 2\<rfloor>"
proof -
  have "0 \<le> \<lfloor>x + 1 / 2\<rfloor>" using assms(1) by simp
  moreover have "\<lfloor>x + 1 / 2\<rfloor> < 2147483648" using assms(2) by (simp add: floor_less_iff)
  ultimately show ?thesis by (simp add: GWY_ROUND_def Let_def)
qed

lemma GWY_ROUND_mono:
  assumes "0 \<le> x" and "x \<le> y" and "y + 1 / 2 < 2147483648"
  shows "GWY_ROUND x \<le> GWY_ROUND y"
proof -
  have "GWY_ROUND x = \<lfloor>x + 1 / 2\<rfloor>" using assms by (intro GWY_ROUND_in_range) auto
  moreover have "GWY_ROUND y = \<lfloor>y + 1 / 2\<rfloor>" using assms by (intro GWY_ROUND_in_range) auto
  ultimately show ?thesis using assms(2) by (simp add: floor_mono)
qed


lemma GWY_ROUND_overflow:
  assumes "2147483648 \<le> x + 1 / 2"
  shows "GWY_ROUND x = - 2147483648"
proof -
  have "2147483648 \<le> \<lfloor>x + 1 / 2\<rfloor>" using assms by (simp add: le_floor_iff)
  then show ?thesis by (simp add: GWY_ROUND_def Let_def)
qed

subsection \<open>Bounds on pi\<close>

text \<open>
  Partial sums of the arctangent series bound \<open>arctan\<close> from both sides; with Machin's
  formula they give \<open>pi\<close> to 17 digits, and show that the literal of the macro \<open>PI\<close> is
  below \<open>pi\<close>.
\<close>

lemma pi_ge_3: "3 \<le> pi"
  using sin_x_le_x [of "pi / 6"] by (simp add: sin_30)

lemma arctan_term_antimono:
  fixes x :: real
  assumes "0 \<le> x" "x \<le> 1"
  shows "1 / real (Suc k * 2 + 1) * x ^ (Suc k * 2 + 1) \<le> 1 / real (k * 2 + 1) * x ^ (k * 2 + 1)"
proof -
  have p: "x ^ (Suc k * 2 + 1) \<le> x ^ (k * 2 + 1)"
    using assms by (intro power_decreasing) auto
  have q: "1 / real (Suc k * 2 + 1) \<le> 1 / real (k * 2 + 1)"
    by (intro divide_left_mono) auto
  have "1 / real (Suc k * 2 + 1) * x ^ (Suc k * 2 + 1) \<le> 1 / real (k * 2 + 1) * x ^ (Suc k * 2 + 1)"
    using q assms by (intro mult_right_mono) auto
  also have "\<dots> \<le> 1 / real (k * 2 + 1) * x ^ (k * 2 + 1)"
    using p by (intro mult_left_mono) auto
  finally show ?thesis .
qed

lemma arctan_partial_sums:
  fixes x :: real
  assumes "0 \<le> x" "x \<le> 1"
  shows "(\<Sum>k<2 * n. (- 1) ^ k * (1 / real (k * 2 + 1) * x ^ (k * 2 + 1))) \<le> arctan x"
    and "arctan x \<le> (\<Sum>k<2 * n + 1. (- 1) ^ k * (1 / real (k * 2 + 1) * x ^ (k * 2 + 1)))"
proof -
  let ?a = "\<lambda>k. 1 / real (k * 2 + 1) * x ^ (k * 2 + 1)"
  have ax: "\<bar>x\<bar> \<le> 1" using assms by simp
  have z: "?a \<longlonglongrightarrow> 0" by (rule zeroseq_arctan_series [OF ax])
  have nn: "\<And>k. 0 \<le> ?a k" using assms by simp
  have mono: "\<And>k. ?a (Suc k) \<le> ?a k" by (rule arctan_term_antimono [OF assms])
  have s: "arctan x = (\<Sum>k. (- 1) ^ k * ?a k)" by (rule arctan_series [OF ax])
  show "(\<Sum>k<2 * n. (- 1) ^ k * ?a k) \<le> arctan x"
    unfolding s by (rule summable_Leibniz'(2) [OF z nn mono])
  show "arctan x \<le> (\<Sum>k<2 * n + 1. (- 1) ^ k * ?a k)"
    unfolding s by (rule summable_Leibniz'(4) [OF z nn mono])
qed

lemma pi_machin: "pi = 16 * arctan (1 / 5) - 4 * arctan (1 / 239)"
  using machin by simp

lemma pi_17_digits: "3.1415926535897932 < pi" "pi < 3.1415926535897933"
proof -
  have l5: "(\<Sum>k<12. (- 1) ^ k * (1 / real (k * 2 + 1) * (1 / 5) ^ (k * 2 + 1))) \<le> arctan (1 / 5 :: real)"
    using arctan_partial_sums(1) [of "1 / 5" 6] by simp
  have u5: "arctan (1 / 5 :: real) \<le> (\<Sum>k<13. (- 1) ^ k * (1 / real (k * 2 + 1) * (1 / 5) ^ (k * 2 + 1)))"
    using arctan_partial_sums(2) [of "1 / 5" 6] by simp
  have l239: "(\<Sum>k<4. (- 1) ^ k * (1 / real (k * 2 + 1) * (1 / 239) ^ (k * 2 + 1))) \<le> arctan (1 / 239 :: real)"
    using arctan_partial_sums(1) [of "1 / 239" 2] by simp
  have u239: "arctan (1 / 239 :: real) \<le> (\<Sum>k<5. (- 1) ^ k * (1 / real (k * 2 + 1) * (1 / 239) ^ (k * 2 + 1)))"
    using arctan_partial_sums(2) [of "1 / 239" 2] by simp
  show "3.1415926535897932 < pi"
    unfolding pi_machin using l5 u239 by (simp add: eval_nat_numeral)
  show "pi < 3.1415926535897933"
    unfolding pi_machin using u5 l239 by (simp add: eval_nat_numeral)
qed

lemma PI_less_pi: "PI < pi"
proof -
  have l5: "(\<Sum>k<16. (- 1) ^ k * (1 / real (k * 2 + 1) * (1 / 5) ^ (k * 2 + 1))) \<le> arctan (1 / 5 :: real)"
    using arctan_partial_sums(1) [of "1 / 5" 8] by simp
  have u239: "arctan (1 / 239 :: real) \<le> (\<Sum>k<5. (- 1) ^ k * (1 / real (k * 2 + 1) * (1 / 239) ^ (k * 2 + 1)))"
    using arctan_partial_sums(2) [of "1 / 239" 2] by simp
  show ?thesis
    unfolding pi_machin PI_def using l5 u239 by (simp add: eval_nat_numeral)
qed

lemma arctan_half_le: "arctan (1 / 2 :: real) \<le> 1 / 2"
proof -
  have "arctan (1 / 2 :: real) \<le> (\<Sum>k<3. (- 1) ^ k * (1 / real (k * 2 + 1) * (1 / 2) ^ (k * 2 + 1)))"
    using arctan_partial_sums(2) [of "1 / 2" 1] by simp
  then show ?thesis by (simp add: eval_nat_numeral)
qed

subsection \<open>Tangents of the skew angles\<close>

lemma deg2rad_less_right_angle: "\<bar>a\<bar> < 90 \<Longrightarrow> deg2rad \<bar>a\<bar> < pi / 2"
proof -
  assume "\<bar>a\<bar> < 90"
  then have "\<bar>a\<bar> * PI < 90 * PI" by (simp add: PI_def)
  also have "\<dots> < 90 * pi" using PI_less_pi by simp
  finally show ?thesis by (simp add: deg2rad_def mult.commute)
qed

lemma deg2rad_abs: "deg2rad \<bar>a\<bar> = \<bar>deg2rad a\<bar>"
  by (simp add: deg2rad_def PI_def abs_mult)

lemma abs_tan: 
  assumes "\<bar>x\<bar> < pi / 2"
  shows "\<bar>tan x\<bar> = tan \<bar>x\<bar>"
proof (cases "0 \<le> x")
  case True
  then have "0 \<le> tan x" using assms by (intro tan_pos_pi2_le) auto
  then show ?thesis using True by simp
next
  case False
  then have "0 \<le> tan (- x)" using assms by (intro tan_pos_pi2_le) auto
  then show ?thesis using False by simp
qed

lemma abs_tan_mono:
  assumes "\<bar>a\<bar> \<le> \<bar>b\<bar>" and "deg2rad \<bar>b\<bar> < pi / 2"
  shows "\<bar>tan (deg2rad a)\<bar> \<le> \<bar>tan (deg2rad b)\<bar>"
proof -
  have le: "\<bar>deg2rad a\<bar> \<le> \<bar>deg2rad b\<bar>"
    using assms(1) by (simp add: deg2rad_def PI_def abs_mult)
  have b: "\<bar>deg2rad b\<bar> < pi / 2"
    using assms(2) by (simp add: deg2rad_abs)
  then have a: "\<bar>deg2rad a\<bar> < pi / 2"
    using le by linarith
  have "tan \<bar>deg2rad a\<bar> \<le> tan \<bar>deg2rad b\<bar>"
    using le b by (intro tan_mono_le) auto
  then show ?thesis
    by (simp add: abs_tan [OF a] abs_tan [OF b])
qed

lemma deg2rad_30: "\<bar>a\<bar> \<le> 30 \<Longrightarrow> \<bar>deg2rad a\<bar> < pi / 4"
  using pi_ge_3 by (simp add: deg2rad_def PI_def abs_mult)

lemma abs_tan_less_1:
  assumes "\<bar>a\<bar> \<le> 30"
  shows "\<bar>tan (deg2rad a)\<bar> < 1"
proof -
  have q: "\<bar>deg2rad a\<bar> < pi / 4" by (rule deg2rad_30 [OF assms])
  then have h: "\<bar>deg2rad a\<bar> < pi / 2" by linarith
  have "tan \<bar>deg2rad a\<bar> < tan (pi / 4)"
    using q by (intro tan_monotone) auto
  then show ?thesis
    by (simp add: abs_tan [OF h] tan_45)
qed


subsection \<open>The forward shear matrix\<close>

text \<open>
  Claim C1, as amended. The forward matrix that \<open>skew_process\<close> builds sends the point
  \<open>(x, y)\<close> to \<open>(x + tan(Xskew) * y, tan(Yskew) * x + y)\<close>: \<open>mult_3matrix\<close> reads the
  array column by column, so \<open>Trans[2] = tan(hAngle)\<close> multiplies \<open>y\<close> in the first
  coordinate and \<open>Trans[1] = tan(vAngle)\<close> multiplies \<open>x\<close> in the second. The horizontal
  angle shears \<open>x\<close>, the vertical angle shears \<open>y\<close>.
\<close>

theorem shear_Trans_point:
  "mult_3matrix (shear_Trans Xskew Yskew) [x, y, 1] =
     [x + tan (deg2rad Xskew) * y, tan (deg2rad Yskew) * x + y, 1]"
  by (simp add: mult_3matrix_def shear_Trans_def Let_def)

text \<open>
  The claim as the spec words it has the two tangents exchanged. At \<open>Xskew = 0\<close>,
  \<open>Yskew = 30\<close> the code leaves the point \<open>(0, 1)\<close> where it is, while the spec's formula
  moves it to \<open>(tan 30 degrees, 1)\<close>.
\<close>

theorem shear_Trans_not_cross_coupled:
  "mult_3matrix (shear_Trans 0 30) [0, 1, 1] \<noteq>
     [0 + tan (deg2rad 30) * 1, tan (deg2rad 0) * 0 + 1, 1]"
proof -
  have "0 < deg2rad 30" "deg2rad 30 < pi / 2"
    using pi_ge_3 by (simp_all add: deg2rad_def PI_def)
  then have "0 < tan (deg2rad 30)"
    by (rule tan_gt_zero)
  then show ?thesis
    by (simp add: mult_3matrix_def shear_Trans_def Let_def deg2rad_def)
qed

subsection \<open>Inverting the forward matrix\<close>






subsection \<open>The new canvas resolution\<close>

lemma newres_fits_slider:
  fixes W H :: int
  assumes "\<bar>a\<bar> \<le> 30" and "1 \<le> W" and "1 \<le> H" and "W + H < 2147483648"
  shows "real_of_int W + \<bar>tan (deg2rad a)\<bar> * real_of_int H + 1 / 2 < 2147483648"
proof -
  have "\<bar>tan (deg2rad a)\<bar> * real_of_int H \<le> 1 * real_of_int H"
    using abs_tan_less_1 [OF assms(1)] assms(3) by (intro mult_right_mono) auto
  moreover have "real_of_int (W + H) \<le> 2147483647"
    using assms(4) by linarith
  ultimately show ?thesis by simp
qed

text \<open>
  From 89.99999 degrees on the tangent exceeds \<open>2^22\<close>, so a 512 x 512 image has a
  sheared box wider than \<open>2^31\<close> pixels and the stored resolution is \<open>INT_MIN\<close>.
\<close>

lemma tan_ge_of_arctan_le:
  assumes "arctan T \<le> x" and "x < pi / 2"
  shows "T \<le> tan x"
proof -
  have "tan (arctan T) \<le> tan x"
    using assms by (intro tan_mono_le arctan_lbound)
  then show ?thesis by (simp add: tan_arctan)
qed

lemma tan_near_right_angle:
  assumes "89.99999 \<le> a" and "a < 90"
  shows "4194304 \<le> tan (deg2rad a)"
proof (rule tan_ge_of_arctan_le)
  show "deg2rad a < pi / 2"
    using deg2rad_less_right_angle [of a] assms by simp
  have "arctan (1 / 4194304 :: real) = pi / 2 - arctan 4194304"
    using arctan_inverse [of "4194304 :: real"] by simp
  moreover have "(\<Sum>k<2. (- 1) ^ k * (1 / real (k * 2 + 1) * (1 / 4194304) ^ (k * 2 + 1)))
                  \<le> arctan (1 / 4194304 :: real)"
    using arctan_partial_sums(1) [of "1 / 4194304" 1] by simp
  ultimately have "arctan 4194304 \<le> deg2rad 89.99999"
    using pi_17_digits(2) by (simp add: deg2rad_def PI_def eval_nat_numeral)
  also have "\<dots> \<le> deg2rad a"
    using assms(1) by (simp add: deg2rad_def PI_def)
  finally show "arctan 4194304 \<le> deg2rad a" .
qed

lemma newxres_steep:
  assumes "89.99999 \<le> a" and "a < 90"
  shows "newxres (skew_process 512 512 mn mx a Yskew) = - 2147483648"
proof -
  have t: "4194304 \<le> tan (deg2rad a)" by (rule tan_near_right_angle [OF assms])
  then have "2147483648 \<le> 512 + \<bar>tan (deg2rad a)\<bar> * 512 + 1 / 2"
    by simp
  then show ?thesis
    by (simp add: newxres_eq GWY_ROUND_overflow)
qed

lemma newxres_at_30: "512 \<le> newxres (skew_process 512 512 mn mx 30 Yskew)"
proof -
  have b: "real_of_int 512 + \<bar>tan (deg2rad 30)\<bar> * real_of_int 512 + 1 / 2 < 2147483648"
    by (rule newres_fits_slider) simp_all
  have "GWY_ROUND 512 \<le> GWY_ROUND (512 + \<bar>tan (deg2rad 30)\<bar> * 512)"
    using b by (intro GWY_ROUND_mono) simp_all
  moreover have "GWY_ROUND 512 = 512"
    by (simp add: GWY_ROUND_def)
  ultimately show ?thesis
    by (simp add: newxres_eq)
qed

lemma newxres_at_0: "newxres (skew_process 512 512 mn mx 0 Yskew) = 512"
  by (simp add: newxres_eq deg2rad_def GWY_ROUND_def)

lemma tan_deg2rad_45: "1 / 2 \<le> tan (deg2rad 45) \<and> tan (deg2rad 45) < 1"
proof
  have lt: "deg2rad 45 < pi / 4"
    using PI_less_pi by (simp add: deg2rad_def)
  have "arctan (1 / 2 :: real) \<le> deg2rad 45"
    using arctan_half_le by (simp add: deg2rad_def PI_def)
  moreover have "deg2rad 45 < pi / 2"
    using lt pi_gt_zero by linarith
  ultimately show "1 / 2 \<le> tan (deg2rad 45)"
    by (rule tan_ge_of_arctan_le)
  have "0 \<le> deg2rad 45" by (simp add: deg2rad_def PI_def)
  then have "tan (deg2rad 45) < tan (pi / 4)"
    using lt pi_gt_zero by (intro tan_monotone) linarith+
  then show "tan (deg2rad 45) < 1" by (simp add: tan_45)
qed

lemma newxres_at_45: "768 \<le> newxres (skew_process 512 512 mn mx 45 Yskew)"
proof -
  have t: "1 / 2 \<le> tan (deg2rad 45)" "tan (deg2rad 45) < 1"
    using tan_deg2rad_45 by simp_all
  have "GWY_ROUND 768 \<le> GWY_ROUND (512 + \<bar>tan (deg2rad 45)\<bar> * 512)"
    using t by (intro GWY_ROUND_mono) simp_all
  moreover have "GWY_ROUND 768 = 768"
    by (simp add: GWY_ROUND_def)
  ultimately show ?thesis
    by (simp add: newxres_eq)
qed

lemma tan_deg2rad_180: "\<bar>tan (deg2rad 180)\<bar> < 1 / 1024"
proof -
  define d where "d = pi - PI"
  have d: "0 < d" "d < 1 / 2048"
    using PI_less_pi pi_17_digits(2) by (simp_all add: d_def PI_def)
  have "(\<Sum>k<2. (- 1) ^ k * (1 / real (k * 2 + 1) * (1 / 1024) ^ (k * 2 + 1)))
          \<le> arctan (1 / 1024 :: real)"
    using arctan_partial_sums(1) [of "1 / 1024" 1] by simp
  then have a: "d < arctan (1 / 1024)"
    using d(2) by (simp add: eval_nat_numeral)
  have "arctan (1 / 1024 :: real) < pi / 2" by (rule arctan_ubound)
  then have "tan d < tan (arctan (1 / 1024))"
    using d(1) a pi_gt_zero by (intro tan_monotone) linarith+
  then have u: "tan d < 1 / 1024" by (simp add: tan_arctan)
  have "d < pi / 2" using d(2) pi_ge_3 by linarith
  then have l: "0 < tan d" using d(1) by (intro tan_gt_zero)
  have "deg2rad 180 = - d + pi" by (simp add: deg2rad_def d_def)
  then have "tan (deg2rad 180) = tan (- d + pi)" by simp
  also have "\<dots> = - tan d" by (simp only: tan_periodic_pi tan_minus)
  finally show ?thesis using u l by simp
qed

lemma newxres_at_180: "newxres (skew_process 512 512 mn mx 180 Yskew) = 512"
proof -
  define s where "s = \<bar>tan (deg2rad 180)\<bar> * 512"
  have s: "0 \<le> s" "s < 1 / 2"
    using tan_deg2rad_180 by (simp_all add: s_def)
  have "GWY_ROUND (512 + s) = \<lfloor>512 + s + 1 / 2\<rfloor>"
    using s by (intro GWY_ROUND_in_range) simp_all
  also have "\<dots> = 512"
    using s by (simp add: floor_eq_iff)
  finally show ?thesis
    by (simp add: newxres_eq s_def)
qed




text \<open>
  Claim C7, as amended. With the resolution of the image fixed, and as long as the
  rounded box of the larger angle fits the 32-bit resolution, the new x-resolution
  does not decrease when \<open>|Xskew|\<close> grows below 90 degrees and \<open>Yskew\<close> stays, the new
  y-resolution does not decrease when \<open>|Yskew|\<close> grows below 90 degrees and \<open>Xskew\<close>
  stays, and neither is smaller than under zero skew.
\<close>

theorem newres_monotone:
  assumes "1 \<le> W" and "1 \<le> H"
  shows "(\<bar>X1\<bar> \<le> \<bar>X2\<bar> \<and> \<bar>X2\<bar> < 90
            \<and> real_of_int W + \<bar>tan (deg2rad X2)\<bar> * real_of_int H + 1 / 2 < 2147483648 \<longrightarrow>
           newxres (skew_process W H mn mx X1 Yskew) \<le> newxres (skew_process W H mn mx X2 Yskew))
       \<and> (\<bar>Y1\<bar> \<le> \<bar>Y2\<bar> \<and> \<bar>Y2\<bar> < 90
            \<and> real_of_int H + \<bar>tan (deg2rad Y2)\<bar> * real_of_int W + 1 / 2 < 2147483648 \<longrightarrow>
           newyres (skew_process W H mn mx Xskew Y1) \<le> newyres (skew_process W H mn mx Xskew Y2))
       \<and> (real_of_int W + \<bar>tan (deg2rad Xskew)\<bar> * real_of_int H + 1 / 2 < 2147483648 \<longrightarrow>
           newxres (skew_process W H mn mx 0 0) \<le> newxres (skew_process W H mn mx Xskew Yskew))
       \<and> (real_of_int H + \<bar>tan (deg2rad Yskew)\<bar> * real_of_int W + 1 / 2 < 2147483648 \<longrightarrow>
           newyres (skew_process W H mn mx 0 0) \<le> newyres (skew_process W H mn mx Xskew Yskew))"
proof (intro conjI impI)
  have W: "0 \<le> real_of_int W" and H: "0 \<le> real_of_int H" using assms by simp_all
  {
    assume a: "\<bar>X1\<bar> \<le> \<bar>X2\<bar> \<and> \<bar>X2\<bar> < 90
            \<and> real_of_int W + \<bar>tan (deg2rad X2)\<bar> * real_of_int H + 1 / 2 < 2147483648"
    then have "\<bar>tan (deg2rad X1)\<bar> \<le> \<bar>tan (deg2rad X2)\<bar>"
      by (intro abs_tan_mono deg2rad_less_right_angle) auto
    then have "\<bar>tan (deg2rad X1)\<bar> * real_of_int H \<le> \<bar>tan (deg2rad X2)\<bar> * real_of_int H"
      using H by (rule mult_right_mono)
    then have "GWY_ROUND (real_of_int W + \<bar>tan (deg2rad X1)\<bar> * real_of_int H)
             \<le> GWY_ROUND (real_of_int W + \<bar>tan (deg2rad X2)\<bar> * real_of_int H)"
      using a W H by (intro GWY_ROUND_mono) auto
    then show "newxres (skew_process W H mn mx X1 Yskew) \<le> newxres (skew_process W H mn mx X2 Yskew)"
      using assms by (simp add: newxres_eq)
  }
  {
    assume a: "\<bar>Y1\<bar> \<le> \<bar>Y2\<bar> \<and> \<bar>Y2\<bar> < 90
            \<and> real_of_int H + \<bar>tan (deg2rad Y2)\<bar> * real_of_int W + 1 / 2 < 2147483648"
    then have "\<bar>tan (deg2rad Y1)\<bar> \<le> \<bar>tan (deg2rad Y2)\<bar>"
      by (intro abs_tan_mono deg2rad_less_right_angle) auto
    then have "\<bar>tan (deg2rad Y1)\<bar> * real_of_int W \<le> \<bar>tan (deg2rad Y2)\<bar> * real_of_int W"
      using W by (rule mult_right_mono)
    then have "GWY_ROUND (real_of_int H + \<bar>tan (deg2rad Y1)\<bar> * real_of_int W)
             \<le> GWY_ROUND (real_of_int H + \<bar>tan (deg2rad Y2)\<bar> * real_of_int W)"
      using a W H by (intro GWY_ROUND_mono) auto
    then show "newyres (skew_process W H mn mx Xskew Y1) \<le> newyres (skew_process W H mn mx Xskew Y2)"
      using assms by (simp add: newyres_eq)
  }
  {
    assume a: "real_of_int W + \<bar>tan (deg2rad Xskew)\<bar> * real_of_int H + 1 / 2 < 2147483648"
    have "0 \<le> \<bar>tan (deg2rad Xskew)\<bar> * real_of_int H" using H by simp
    then have "GWY_ROUND (real_of_int W)
             \<le> GWY_ROUND (real_of_int W + \<bar>tan (deg2rad Xskew)\<bar> * real_of_int H)"
      using a W by (intro GWY_ROUND_mono) auto
    then show "newxres (skew_process W H mn mx 0 0) \<le> newxres (skew_process W H mn mx Xskew Yskew)"
      using assms by (simp add: newxres_eq deg2rad_def)
  }
  {
    assume a: "real_of_int H + \<bar>tan (deg2rad Yskew)\<bar> * real_of_int W + 1 / 2 < 2147483648"
    have "0 \<le> \<bar>tan (deg2rad Yskew)\<bar> * real_of_int W" using W by simp
    then have "GWY_ROUND (real_of_int H)
             \<le> GWY_ROUND (real_of_int H + \<bar>tan (deg2rad Yskew)\<bar> * real_of_int W)"
      using a H by (intro GWY_ROUND_mono) auto
    then show "newyres (skew_process W H mn mx 0 0) \<le> newyres (skew_process W H mn mx Xskew Yskew)"
      using assms by (simp add: newyres_eq deg2rad_def)
  }
qed

theorem newres_monotone_witness:
  "(1::int) \<le> 512 \<and> (1::int) \<le> 384
   \<and> \<bar>- 10 :: real\<bar> \<le> \<bar>30\<bar> \<and> \<bar>30 :: real\<bar> < 90
   \<and> real_of_int 512 + \<bar>tan (deg2rad 30)\<bar> * real_of_int 384 + 1 / 2 < 2147483648
   \<and> newxres (skew_process 512 384 0 1 (- 10) 20) \<le> newxres (skew_process 512 384 0 1 30 20)
   \<and> \<bar>5 :: real\<bar> \<le> \<bar>- 25\<bar> \<and> \<bar>- 25 :: real\<bar> < 90
   \<and> real_of_int 384 + \<bar>tan (deg2rad (- 25))\<bar> * real_of_int 512 + 1 / 2 < 2147483648
   \<and> newyres (skew_process 512 384 0 1 30 5) \<le> newyres (skew_process 512 384 0 1 30 (- 25))
   \<and> newxres (skew_process 512 384 0 1 0 0) \<le> newxres (skew_process 512 384 0 1 30 (- 25))
   \<and> newyres (skew_process 512 384 0 1 0 0) \<le> newyres (skew_process 512 384 0 1 30 (- 25))"
proof -
  have w: "(1::int) \<le> 512" "(1::int) \<le> 384" by simp_all
  have a: "real_of_int 512 + \<bar>tan (deg2rad 30)\<bar> * real_of_int 384 + 1 / 2 < 2147483648"
    by (rule newres_fits_slider) simp_all
  have b: "real_of_int 384 + \<bar>tan (deg2rad (- 25))\<bar> * real_of_int 512 + 1 / 2 < 2147483648"
    by (rule newres_fits_slider) simp_all
  show ?thesis
    using newres_monotone [OF w, where ?X1.0 = "- 10" and ?X2.0 = 30 and Yskew = 20
              and mn = 0 and mx = 1 and ?Y1.0 = 5 and ?Y2.0 = "- 25" and Xskew = 30]
          newres_monotone [OF w, where ?X1.0 = 0 and ?X2.0 = 0 and Yskew = "- 25"
              and mn = 0 and mx = 1 and ?Y1.0 = 0 and ?Y2.0 = 0 and Xskew = 30] a b
    by simp
qed

text \<open>
  The claim as the spec words it has no bound on the angles. Growing \<open>|Xskew|\<close> from 30
  to \<open>90 - 2^-17\<close> degrees on a 512 x 512 image takes the stored x-resolution from at
  least 512 to \<open>-2147483648\<close>, which is also below the resolution under zero skew.
  Beyond 90 degrees the tangent is not monotone either: growing \<open>|Xskew|\<close> from 45 to
  180 degrees takes the x-resolution from at least 768 back to 512, with no overflow.
\<close>

theorem newres_not_monotone:
  "\<bar>30 :: real\<bar> \<le> \<bar>89.99999237060546875\<bar> \<and> \<bar>89.99999237060546875 :: real\<bar> < 90
   \<and> newxres (skew_process 512 512 0 1 89.99999237060546875 0)
       < newxres (skew_process 512 512 0 1 30 0)
   \<and> newxres (skew_process 512 512 0 1 89.99999237060546875 0)
       < newxres (skew_process 512 512 0 1 0 0)
   \<and> \<bar>45 :: real\<bar> \<le> \<bar>180\<bar>
   \<and> newxres (skew_process 512 512 0 1 180 0) < newxres (skew_process 512 512 0 1 45 0)"
  using newxres_at_30 [of 0 1 0] newxres_steep [of "89.99999237060546875" 0 1 0]
        newxres_at_0 [of 0 1 0] newxres_at_45 [of 0 1 0] newxres_at_180 [of 0 1 0]
  by simp

section \<open>Properties of the affine resampler\<close>

subsection \<open>The half-pixel correction\<close>

lemma affine_correction:
  "affine_bx invtrans = invtrans ! 4 + 0.5 * (invtrans ! 0 + invtrans ! 1 - 1)"
  "affine_by invtrans = invtrans ! 5 + 0.5 * (invtrans ! 2 + invtrans ! 3 - 1)"
  by (simp_all add: affine_bx_def affine_by_def)

text \<open>
  The coordinate that \<open>affine\<close> computes for a pixel is the image of the pixel's centre
  under the inverse map, re-centred, exactly when the two off-diagonal entries of the
  map agree: the correction adds the entries \<open>0, 1\<close> to \<open>bx\<close> and \<open>2, 3\<close> to \<open>by\<close>,
  while the loop multiplies the pixel by the entries \<open>0, 2\<close> for \<open>x\<close> and \<open>1, 3\<close> for \<open>y\<close>.
\<close>

lemma affine_x_centre:
  "affine_x invtrans newi newj + 1 / 2
     = invtrans ! 0 * (real_of_int newi + 1 / 2) + invtrans ! 2 * (real_of_int newj + 1 / 2)
       + invtrans ! 4
   \<longleftrightarrow> invtrans ! 1 = invtrans ! 2"
  by (auto simp add: affine_x_def affine_bx_def field_simps)

lemma iTrans_Xskew_only:
  "iTrans (skew_process W H mn mx Xskew 0) ! 0 = 1"
  "iTrans (skew_process W H mn mx Xskew 0) ! 1 = 0"
  "iTrans (skew_process W H mn mx Xskew 0) ! 2 = - tan (deg2rad Xskew)"
  "iTrans (skew_process W H mn mx Xskew 0) ! 3 = 1"
  by (simp_all add: skew_process_def invert_matrix_def matrix_det_def Let_def deg2rad_def)

text \<open>
  Claim C2. Writing the inverse map as \<open>x' = a*x + c*y + tx\<close>, \<open>y' = b*x + d*y + ty\<close>
  (so \<open>a, b, c, d\<close> are the entries \<open>0, 1, 2, 3\<close>), the claim has \<open>0.5*(a+c-1)\<close> added to
  \<open>tx\<close> and \<open>0.5*(b+d-1)\<close> to \<open>ty\<close>. The code adds \<open>0.5*(a+b-1)\<close> and \<open>0.5*(c+d-1)\<close>. For
  the inverse map that \<open>skew_process\<close> passes at \<open>Xskew = 30\<close>, \<open>Yskew = 0\<close> the code adds
  nothing to \<open>tx\<close> where the claim's correction is negative, and adds a negative amount
  to \<open>ty\<close> where the claim's correction is zero.
\<close>

theorem affine_correction_transposed:
  "affine_bx (iTrans (skew_process 4 3 0 1 30 0)) - iTrans (skew_process 4 3 0 1 30 0) ! 4 = 0
   \<and> 0.5 * (iTrans (skew_process 4 3 0 1 30 0) ! 0 + iTrans (skew_process 4 3 0 1 30 0) ! 2 - 1) < 0
   \<and> affine_by (iTrans (skew_process 4 3 0 1 30 0)) - iTrans (skew_process 4 3 0 1 30 0) ! 5 < 0
   \<and> 0.5 * (iTrans (skew_process 4 3 0 1 30 0) ! 1 + iTrans (skew_process 4 3 0 1 30 0) ! 3 - 1) = 0"
proof -
  have "0 < deg2rad 30" "deg2rad 30 < pi / 2"
    using pi_ge_3 by (simp_all add: deg2rad_def PI_def)
  then have "0 < tan (deg2rad 30)"
    by (rule tan_gt_zero)
  then show ?thesis
    using iTrans_Xskew_only [of 4 3 0 1 30]
    by (simp add: affine_correction)
qed

subsection \<open>The destination array after the loops\<close>

lemma fold_product:
  "fold (\<lambda>a. fold (g a) bs) as d = fold (\<lambda>(a, b). g a b) (List.product as bs) d"
  by (induction as arbitrary: d) (simp_all add: fold_map comp_def)

lemma fold_update_length:
  "length (fold (\<lambda>p d. d[idx p := v p]) ps d) = length d"
  by (induction ps arbitrary: d) simp_all

lemma fold_update_other:
  "k \<notin> idx ` set ps \<Longrightarrow> fold (\<lambda>p d. d[idx p := v p]) ps d ! k = d ! k"
  by (induction ps arbitrary: d) auto

lemma fold_update_hit:
  assumes "q \<in> set ps" and "inj_on idx (set ps)" and "idx q < length d"
  shows "fold (\<lambda>p d. d[idx p := v p]) ps d ! idx q = v q"
  using assms
proof (induction ps arbitrary: d)
  case Nil
  then show ?case by simp
next
  case (Cons p ps)
  show ?case
  proof (cases "q \<in> set ps")
    case True
    moreover have "inj_on idx (set ps)"
      using Cons.prems(2) by (simp add: inj_on_def)
    ultimately show ?thesis
      using Cons.IH [of "d[idx p := v p]"] Cons.prems(3) by simp
  next
    case False
    then have qp: "q = p" using Cons.prems(1) by simp
    have "idx q \<notin> idx ` set ps"
    proof
      assume "idx q \<in> idx ` set ps"
      then obtain r where r: "r \<in> set ps" "idx r = idx q" by auto
      then have "r = q" using Cons.prems(2) qp by (auto simp: inj_on_def)
      then show False using r False by simp
    qed
    then show ?thesis
      using Cons.prems(3) qp by (simp add: fold_update_other)
  qed
qed

lemma pixel_index_eq:
  fixes a b a' b' W :: int
  assumes "0 \<le> a" "a < W" "0 \<le> a'" "a' < W" "0 \<le> b" "0 \<le> b'"
    and e: "nat (a + W * b) = nat (a' + W * b')"
  shows "a = a' \<and> b = b'"
proof -
  have "0 \<le> W * b" "0 \<le> W * b'" using assms by simp_all
  then have eq: "a + W * b = a' + W * b'" using e assms by linarith
  have "(a + W * b) mod W = a" "(a' + W * b') mod W = a'"
    using assms by simp_all
  then have a: "a = a'" using eq by simp
  have "(a + W * b) div W = b" "(a' + W * b') div W = b'"
    using assms by simp_all
  then have "b = b'" using eq by simp
  with a show "a = a' \<and> b = b'" by simp
qed

lemma pixel_index_inj:
  "inj_on (\<lambda>(a, b). nat (a + W * b)) (set (List.product [0..W - 1] [0..H - 1]))"
  unfolding inj_on_def
proof (intro ballI impI)
  fix p q
  assume p: "p \<in> set (List.product [0..W - 1] [0..H - 1])"
    and q: "q \<in> set (List.product [0..W - 1] [0..H - 1])"
    and e: "(case p of (a, b) \<Rightarrow> nat (a + W * b)) = (case q of (a, b) \<Rightarrow> nat (a + W * b))"
  obtain a b where pab: "p = (a, b)" by (cases p)
  obtain a' b' where qab: "q = (a', b')" by (cases q)
  have "a = a' \<and> b = b'"
    using p q e unfolding pab qab
    by (intro pixel_index_eq [of a W a' b b']) auto
  then show "p = q" by (simp add: pab qab)
qed

lemma affine_loop_pixel:
  assumes "0 \<le> i" "i < W" "0 \<le> j" "j < H" "length d = nat (W * H)"
  shows "fold (\<lambda>newi. fold (\<lambda>newj d. d[nat (newi + W * newj) := f newi newj]) [0..H - 1])
           [0..W - 1] d ! nat (i + W * j) = f i j"
proof -
  have m: "(i, j) \<in> set (List.product [0..W - 1] [0..H - 1])"
    using assms by simp
  have "i + W * j < W * H"
  proof -
    have "W * j \<le> W * (H - 1)" using assms by (intro mult_left_mono) auto
    then show ?thesis using assms by (simp add: algebra_simps)
  qed
  moreover have "0 \<le> W * j" using assms by simp
  ultimately have l: "nat (i + W * j) < length d"
    using assms by simp
  have "fold (\<lambda>p d. d[(\<lambda>(a, b). nat (a + W * b)) p := (\<lambda>(a, b). f a b) p])
          (List.product [0..W - 1] [0..H - 1]) d ! (\<lambda>(a, b). nat (a + W * b)) (i, j)
        = (\<lambda>(a, b). f a b) (i, j)"
    using fold_update_hit [where idx = "\<lambda>(a, b). nat (a + W * b)" and v = "\<lambda>(a, b). f a b",
            OF m pixel_index_inj, of d] l
    by simp
  then show ?thesis
    by (simp add: fold_product case_prod_unfold)
qed

lemma affine_data_pixel:
  assumes "0 < get_support_size interp"
    and "0 \<le> newi" "newi < get_xres dest" "0 \<le> newj" "newj < get_yres dest"
    and "length (get_data dest) = nat (get_xres dest * get_yres dest)"
  shows "get_data (affine source dest invtrans interp fill_value) ! nat (newi + get_xres dest * newj)
         = affine_pixel (get_xres source) (get_yres source)
             (if has_interpolating_basis interp then get_data source
              else resolve_coeffs_2d interp (get_xres source) (get_yres source) (get_data source))
             invtrans interp fill_value newi newj"
  using assms(1) affine_loop_pixel [OF assms(2-6)]
  by (simp add: affine_def Let_def)

subsection \<open>The fill value\<close>

text \<open>
  Claim C4, as amended. For every source, inverse map and kernel, the destination pixel
  \<open>(newi, newj)\<close> holds the fill value when its source coordinate has \<open>x < 0\<close>, \<open>x > W\<close>,
  \<open>y < 0\<close> or \<open>y > H\<close>, and in every other case holds the interpolation of the gathered
  neighbourhood: the fill value is substituted outside the closed rectangle
  \<open>[0, W] x [0, H]\<close> and nowhere else.
\<close>

theorem affine_fill_value:
  assumes "0 < get_support_size interp"
    and "0 \<le> newi" and "newi < get_xres dest" and "0 \<le> newj" and "newj < get_yres dest"
    and "length (get_data dest) = nat (get_xres dest * get_yres dest)"
  shows "get_data (affine source dest invtrans interp fill_value) ! nat (newi + get_xres dest * newj)
         = (if affine_x invtrans newi newj < 0
               \<or> real_of_int (get_xres source) < affine_x invtrans newi newj
               \<or> affine_y invtrans newi newj < 0
               \<or> real_of_int (get_yres source) < affine_y invtrans newi newj
            then fill_value
            else interpolate_2d interp
                   (affine_x invtrans newi newj - real_of_int \<lfloor>affine_x invtrans newi newj\<rfloor>)
                   (affine_y invtrans newi newj - real_of_int \<lfloor>affine_y invtrans newi newj\<rfloor>)
                   (gather (if has_interpolating_basis interp then get_data source
                            else resolve_coeffs_2d interp (get_xres source) (get_yres source)
                                   (get_data source))
                      (get_xres source) (get_yres source)
                      \<lfloor>affine_y invtrans newi newj\<rfloor> \<lfloor>affine_x invtrans newi newj\<rfloor>
                      (get_support_size interp)))"
  unfolding affine_data_pixel [OF assms]
  by (auto simp add: affine_pixel_def Let_def vset_def)

lemma identity_map_xy:
  "affine_x identity_map newi newj = real_of_int newi"
  "affine_y identity_map newi newj = real_of_int newj"
  by (simp_all add: affine_x_def affine_y_def affine_bx_def affine_by_def identity_map_def)

lemma upto_0_1: "[0..1] = [0, 1::int]"
  by (simp add: upto.simps)


lemma ex_gather: "gather [7] 1 1 0 1 2 = [7, 7, 7, 7]"
  by (simp add: gather_def cdata_index_def mirror_index_def signed_divide_int_def
      signed_modulo_int_def upto_0_1 Let_def)

theorem affine_fill_value_witness:
  "0 < get_support_size linear_kernel
   \<and> (0::int) \<le> 1 \<and> 1 < get_xres ex_dest \<and> (0::int) \<le> 0 \<and> 0 < get_yres ex_dest
   \<and> length (get_data ex_dest) = nat (get_xres ex_dest * get_yres ex_dest)
   \<and> get_data (affine ex_source ex_dest [1, 0, 0, 1, 1, 0] linear_kernel 0) ! nat (1 + get_xres ex_dest * 0) = 0"
proof -
  have h: "0 < get_support_size linear_kernel"
     "(0::int) \<le> 1" "1 < get_xres ex_dest" "(0::int) \<le> 0" "0 < get_yres ex_dest"
     "length (get_data ex_dest) = nat (get_xres ex_dest * get_yres ex_dest)"
    by (simp_all add: linear_kernel_def ex_dest_def)
  have x: "affine_x [1, 0, 0, 1, 1, 0] 1 0 = 2"
    by (simp add: affine_x_def affine_bx_def)
  show ?thesis
    using affine_fill_value [OF h, of ex_source "[1, 0, 0, 1, 1, 0]" 0] h
    by (simp add: x ex_source_def)
qed

text \<open>
  The claim as the spec words it fills every pixel whose coordinate is outside the
  half-open \<open>[0, W) x [0, H)\<close>. A 1 x 1 source of value 7 resampled by the identity map
  onto a 2 x 1 grid: the second pixel has \<open>x = 1 = W\<close>, outside \<open>[0, 1)\<close>, and receives
  the interpolated 7, not the fill value 0.
\<close>

theorem affine_edge_not_filled:
  "affine_x identity_map 1 0 = 1 \<and> affine_y identity_map 1 0 = 0
   \<and> \<not> affine_x identity_map 1 0 < real_of_int (get_xres ex_source)
   \<and> get_data (affine ex_source ex_dest identity_map linear_kernel 0) ! nat (1 + get_xres ex_dest * 0) = 7"
proof -
  have "get_data (affine ex_source ex_dest identity_map linear_kernel 0) ! nat (1 + get_xres ex_dest * 0)
        = affine_pixel 1 1 [7] identity_map linear_kernel 0 1 0"
    using affine_data_pixel [of linear_kernel 1 ex_dest 0 ex_source identity_map 0]
    by (simp add: ex_dest_def ex_source_def linear_kernel_def)
  also have "\<dots> = 7"
    by (simp add: affine_pixel_def identity_map_xy vset_def ex_gather linear_kernel_def)
  finally show ?thesis
    by (simp add: identity_map_xy ex_source_def)
qed

subsection \<open>Folded indices\<close>






text \<open>
  The unbounded integers of the model are the 32-bit \<open>gint\<close> of the code as long as
  \<open>2*(st+1)*R + st < 2^31\<close>: every intermediate value of the index expression fits.
\<close>

lemma mirror_index_fits_gint:
  fixes R old i st :: int
  assumes "1 \<le> R" and "0 \<le> old" and "old \<le> R" and "- st \<le> i" and "i \<le> st"
    and "2 * (st + 1) * R + st < 2 ^ 31"
  shows "\<bar>old + i\<bar> < 2 ^ 31" and "\<bar>2 * st\<bar> < 2 ^ 31" and "\<bar>2 * st * R\<bar> < 2 ^ 31"
    and "0 \<le> old + i + 2 * st * R" and "old + i + 2 * st * R < 2 ^ 31"
    and "\<bar>2 * R\<bar> < 2 ^ 31" and "\<bar>2 * R - 1\<bar> < 2 ^ 31"
proof -
  have st: "0 \<le> st" using assms(4,5) by linarith
  have e: "2 * (st + 1) * R = 2 * st * R + 2 * R" by (simp add: algebra_simps)
  have m: "st * 1 \<le> st * R" using st assms(1) by (intro mult_left_mono) auto
  have n: "0 \<le> st * R" using st assms(1) by simp
  show "\<bar>old + i\<bar> < 2 ^ 31" using assms e m n by linarith
  show "\<bar>2 * st\<bar> < 2 ^ 31" using assms e m n st by linarith
  show "\<bar>2 * st * R\<bar> < 2 ^ 31" using assms e m n st by linarith
  show "0 \<le> old + i + 2 * st * R" using assms e m n by linarith
  show "old + i + 2 * st * R < 2 ^ 31" using assms e m n by linarith
  show "\<bar>2 * R\<bar> < 2 ^ 31" using assms e m n st by linarith
  show "\<bar>2 * R - 1\<bar> < 2 ^ 31" using assms e m n st by linarith
qed



section \<open>Properties of the peak search\<close>






















section \<open>Properties of the angle computation\<close>

text \<open>
  On the unit square the argument of \<open>acos\<close> is exactly 0 for both angles. In exact
  arithmetic each angle is \<open>acos 0 * 180 / PI\<close>, that is \<open>90 * pi / PI\<close> with the
  mathematical \<open>pi\<close> over the macro's decimal literal, which is a little more than 90.
\<close>

lemma get_angles_square:
  "get_angles square_lattice = (90 * pi / PI, 90 * pi / PI)"
  by (simp add: get_angles_def square_lattice_def Let_def)

lemma get_angles_square_above_90: "90 < 90 * pi / PI"
  using PI_less_pi by (simp add: PI_def)

subsection \<open>Rounding to binary64\<close>

lemma pow2_pos: "0 < pow2 e"
  by (simp add: pow2_def)

lemma pow2_powr: "pow2 e = 2 powr real_of_int e"
proof (cases "0 \<le> e")
  case True
  then have "2 powr real_of_int e = 2 powr real (nat e)" by simp
  also have "\<dots> = 2 ^ nat e" by (simp add: powr_realpow)
  finally show ?thesis using True by (simp add: pow2_def)
next
  case False
  then have "2 powr real_of_int e = 2 powr (- real (nat (- e)))" by simp
  also have "\<dots> = 1 / 2 ^ nat (- e)"
    by (simp add: powr_minus powr_realpow inverse_eq_divide)
  finally show ?thesis using False by (simp add: pow2_def)
qed

lemma floor_log2:
  assumes "pow2 k \<le> x" and "x < pow2 (k + 1)"
  shows "\<lfloor>log 2 x\<rfloor> = k"
proof -
  have "0 < x" using assms(1) pow2_pos [of k] by linarith
  then show ?thesis
    using assms by (simp add: floor_log_eq_powr_iff pow2_powr)
qed

lemma round_half_even_near:
  assumes "\<bar>y - real_of_int m\<bar> < 1 / 2"
  shows "round_half_even y = m"
proof (cases "real_of_int m \<le> y")
  case True
  then have "\<lfloor>y\<rfloor> = m" using assms by (intro floor_unique) auto
  then show ?thesis using assms True by (simp add: round_half_even_def)
next
  case False
  then have f: "\<lfloor>y\<rfloor> = m - 1" using assms by (intro floor_unique) auto
  have "1 / 2 < y - real_of_int (m - 1)" using assms False by simp
  then show ?thesis using f by (simp add: round_half_even_def)
qed

text \<open>
  A real in the binade \<open>[2^k, 2^(k+1))\<close> rounds to \<open>m * 2^(k-52)\<close> when it is within half
  a unit in the last place of it.
\<close>

lemma b64_round_near:
  assumes "pow2 k \<le> x" and "x < pow2 (k + 1)" and "- 1022 \<le> k"
    and "\<bar>x / pow2 (k - 52) - real_of_int m\<bar> < 1 / 2"
  shows "b64_round x = real_of_int m * pow2 (k - 52)"
proof -
  have x: "0 < x" using assms(1) pow2_pos [of k] by linarith
  then have "\<lfloor>log 2 \<bar>x\<bar>\<rfloor> = k"
    using floor_log2 [OF assms(1,2)] by simp
  then have "max (\<lfloor>log 2 \<bar>x\<bar>\<rfloor> - 52) (- 1074) = k - 52"
    using assms(3) by simp
  then show ?thesis
    using x round_half_even_near [OF assms(4)] by (simp add: b64_round_def)
qed

lemma b64_round_0: "b64_round 0 = 0"
  by (simp add: b64_round_def)

lemma b64_round_1: "b64_round 1 = 1"
  using b64_round_near [of 0 1 "2 ^ 52"] by (simp add: pow2_def)

lemma b64_small:
  "b64_sub 0 0 = 0" "b64_sub 1 0 = 1" "b64_sub 1 1 = 0"
  "b64_mul 0 x = 0" "b64_mul x 0 = 0" "b64_mul 1 1 = 1"
  "b64_add 0 0 = 0" "b64_add 0 1 = 1" "b64_add 1 0 = 1"
  "b64_sqrt 1 = 1" "b64_div 0 1 = 0"
  by (simp_all add: b64_sub_def b64_mul_def b64_add_def b64_sqrt_def b64_div_def
      b64_round_0 b64_round_1)

subsection \<open>The right angle in binary64\<close>

text \<open>
  \<open>acos(0.0)\<close> is the double \<open>0x3FF921FB54442D18\<close> nearest \<open>pi/2\<close>, and \<open>PI\<close> is twice that
  double; the product with 180 rounds up by one eighth of a unit, and the quotient is
  within a sixth of a unit of 90.
\<close>

lemma b64_acos_0: "b64_acos 0 = 7074237752028440 * pow2 (- 52)"
proof -
  have "b64_round (pi / 2) = real_of_int 7074237752028440 * pow2 (0 - 52)"
  proof (rule b64_round_near)
    show "pow2 0 \<le> pi / 2" using pi_ge_two by (simp add: pow2_def)
    show "pi / 2 < pow2 (0 + 1)" using pi_less_4 by (simp add: pow2_def)
    show "- 1022 \<le> (0::int)" by simp
    show "\<bar>pi / 2 / pow2 (0 - 52) - real_of_int 7074237752028440\<bar> < 1 / 2"
      using pi_17_digits by (simp add: pow2_def abs_less_iff)
  qed
  then show ?thesis by (simp add: b64_acos_def)
qed

lemma b64_round_PI: "b64_round PI = 7074237752028440 * pow2 (- 51)"
proof -
  have "b64_round PI = real_of_int 7074237752028440 * pow2 (1 - 52)"
    by (rule b64_round_near) (simp_all add: pow2_def PI_def abs_less_iff)
  then show ?thesis by simp
qed

lemma b64_mul_acos_180:
  "b64_mul (7074237752028440 * pow2 (- 52)) 180 = 4974073419394997 * pow2 (- 44)"
proof -
  have "b64_round (7074237752028440 * pow2 (- 52) * 180) = real_of_int 4974073419394997 * pow2 (8 - 52)"
    by (rule b64_round_near) (simp_all add: pow2_def abs_less_iff)
  then show ?thesis by (simp add: b64_mul_def)
qed

lemma b64_div_by_PI:
  "b64_div (4974073419394997 * pow2 (- 44)) (7074237752028440 * pow2 (- 51)) = 90"
proof -
  have "b64_round (4974073419394997 * pow2 (- 44) / (7074237752028440 * pow2 (- 51)))
        = real_of_int 6333186975989760 * pow2 (6 - 52)"
    by (rule b64_round_near) (simp_all add: pow2_def abs_less_iff)
  then show ?thesis by (simp add: b64_div_def pow2_def)
qed

lemma b64_right_angle:
  "b64_div (b64_mul (b64_acos 0) 180) (b64_round PI) = 90"
  by (simp only: b64_acos_0 b64_mul_acos_180 b64_round_PI b64_div_by_PI)

text \<open>
  Claim C8. For the four points \<open>p1 = (0,1)\<close>, \<open>p2 = (0,0)\<close>, \<open>p3 = (1,0)\<close>, \<open>p4 = (1,1)\<close>
  the angle computation, carried out in doubles, returns \<open>angle123 = 90.0\<close> and
  \<open>angle234 = 90.0\<close> exactly.
\<close>

theorem get_angles_b64_square:
  "get_angles_b64 square_lattice = (90, 90)"
  by (simp add: get_angles_b64_def square_lattice_def Let_def b64_small b64_right_angle)

section \<open>The inverse round trip in binary64\<close>

















end
